theory Spec2Isabelle
  imports Main "HOL-Library.Multiset"
begin

section \<open>JavaScript values used by the program\<close>

text \<open>
  Numbers. The program only adds and multiplies integers far below \<open>2^53\<close> (levels,
  day counts, millisecond timestamps), where JavaScript's doubles are exact, so a number is
  an \<open>int\<close>. The one non-integer the code can produce from integers is \<open>NaN\<close>
  (arithmetic on \<open>undefined\<close> after an out-of-range array read), so a computed
  timestamp is a \<open>jsnum\<close>.
\<close>

datatype jsnum = Num int | NaN

text \<open>\<open>xs[i]\<close> on a JavaScript array: \<open>undefined\<close> (here \<open>None\<close>) outside the array.\<close>

definition js_index :: "'a list \<Rightarrow> int \<Rightarrow> 'a option" where
  "js_index xs i = (if 0 \<le> i \<and> i < int (length xs) then Some (xs ! nat i) else None)"

text \<open>
  Strings. A JavaScript string is a sequence of UTF-16 code units, here a list of numbers.
  \<open>js\<close> gives the code units of a text written with HOL's 8-bit characters (ASCII and
  Latin-1, where character and code unit have the same number).
\<close>

type_synonym jsstring = "nat list"

definition js :: "string \<Rightarrow> jsstring" where
  "js s = map of_char s"

text \<open>
  \<open>String.prototype.trim\<close> removes, at both ends, the code units of ECMAScript's
  WhiteSpace and LineTerminator: tab, line feed, vertical tab, form feed, carriage return,
  space, no-break space, U+1680, U+2000 to U+200A, U+2028, U+2029, U+202F, U+205F, U+3000
  and U+FEFF.
\<close>

definition is_space :: "nat \<Rightarrow> bool" where
  "is_space c =
     (c \<in> set [0x0009, 0x000A, 0x000B, 0x000C, 0x000D, 0x0020, 0x00A0, 0x1680, 0x2028, 0x2029,
                0x202F, 0x205F, 0x3000, 0xFEFF]
      \<or> (0x2000 \<le> c \<and> c \<le> 0x200A))"

definition trim :: "jsstring \<Rightarrow> jsstring" where
  "trim s = rev (dropWhile is_space (rev (dropWhile is_space s)))"

text \<open>
  \<open>String.prototype.toLowerCase\<close>. On a text of ASCII code units it turns \<open>A\<close>..\<open>Z\<close>
  into \<open>a\<close>..\<open>z\<close> and leaves the rest. On any other text the result is the one the
  Unicode case tables give; these are not part of the program, and the lower-casing of
  such texts is a parameter, \<open>unicode_lower\<close>, of every function that lower-cases.
\<close>

definition lower_ascii :: "nat \<Rightarrow> nat" where
  "lower_ascii c = (if 0x41 \<le> c \<and> c \<le> 0x5A then c + 0x20 else c)"

definition toLowerCase :: "(jsstring \<Rightarrow> jsstring) \<Rightarrow> jsstring \<Rightarrow> jsstring" where
  "toLowerCase unicode_lower s =
     (if list_all (\<lambda>c. c < 0x80) s then map lower_ascii s else unicode_lower s)"

text \<open>
  \<open>xs.sort(() => Math.random() - 0.5)\<close> rearranges the array in an order the program
  does not control. The rearrangement is a parameter of the model; all that is known of it
  is that it returns the same elements.
\<close>

definition is_shuffle :: "('a list \<Rightarrow> 'a list) \<Rightarrow> bool" where
  "is_shuffle f = (\<forall>xs. mset (f xs) = mset xs)"


section \<open>Data model\<close>

text \<open>
  A saved item carries the two optional scheduling fields (\<open>None\<close> is an absent field).
  The declarations of \<open>WordData\<close> and \<open>SentenceData\<close> are not among the sources; the
  fields below are the ones the sources read, and every further field of a record lives in
  its extension part (\<open>more\<close>).
\<close>

record Reviewable =
  srs_level :: "int option"
  next_review :: "jsnum option"

record WordData = Reviewable +
  word :: jsstring
  meaning_vi :: jsstring
  part_of_speech :: jsstring
  example_en :: jsstring
  mnemonic :: jsstring

record SentenceData = Reviewable +
  sentence :: jsstring

datatype StudyMode = Flashcard | Typing | Quiz

datatype rating = Fail | Hard | Good | Easy

datatype js_error = TypeError

record SessionStats =
  reviewed :: nat
  forgotten :: nat

text \<open>
  The state of one \<open>StudySession\<close> component: its \<open>words\<close> property and its state
  hooks. \<open>pendingAdvance\<close> counts the \<open>setTimeout\<close> callbacks that \<open>handleRate\<close> has
  scheduled and that have not run yet.
\<close>

record 'a StudySession =
  words :: "'a WordData_scheme list"
  queue :: "'a WordData_scheme list"
  currentIndex :: nat
  isFlipped :: bool
  studyMode :: "StudyMode option"
  sessionStats :: SessionStats
  userInput :: jsstring
  quizOptions :: "jsstring list"
  isAnswered :: bool
  isCorrectAnswer :: "bool option"
  pendingAdvance :: nat


section \<open>The scheduler\<close>

definition SRS_INTERVALS :: "int list" where
  "SRS_INTERVALS = [1, 3, 7, 14, 30, 90, 180]"

text \<open>\<open>const currentWord = queue[currentIndex]\<close>\<close>

definition currentWord :: "'a StudySession \<Rightarrow> 'a WordData_scheme option" where
  "currentWord s = js_index (queue s) (int (currentIndex s))"

text \<open>\<open>currentWord.srs_level || 0\<close>\<close>

definition level_or_0 :: "'a Reviewable_scheme \<Rightarrow> int" where
  "level_or_0 w = (case srs_level w of None \<Rightarrow> 0 | Some l \<Rightarrow> l)"

text \<open>The \<open>switch (rating)\<close> of \<open>handleRate\<close>, as far as it assigns \<open>newLevel\<close>.\<close>

definition rate_level :: "rating \<Rightarrow> int \<Rightarrow> int" where
  "rate_level r newLevel =
     (case r of
        Fail \<Rightarrow> 0
      | Hard \<Rightarrow> max 0 newLevel
      | Good \<Rightarrow> min (newLevel + 1) (int (length SRS_INTERVALS) - 1)
      | Easy \<Rightarrow> min (newLevel + 2) (int (length SRS_INTERVALS) - 1))"

text \<open>The same \<open>switch\<close>, as far as it updates the session statistics.\<close>

definition rate_stats :: "rating \<Rightarrow> SessionStats \<Rightarrow> SessionStats" where
  "rate_stats r prev = (case r of Fail \<Rightarrow> prev\<lparr>forgotten := forgotten prev + 1\<rparr> | _ \<Rightarrow> prev)"

text \<open>\<open>Date.now() + (days * 24 * 60 * 60 * 1000)\<close>, where \<open>days\<close> may be \<open>undefined\<close>.\<close>

definition nextReviewDate :: "int \<Rightarrow> int option \<Rightarrow> jsnum" where
  "nextReviewDate now days =
     (case days of None \<Rightarrow> NaN | Some d \<Rightarrow> Num (now + d * 24 * 60 * 60 * 1000))"

text \<open>
  \<open>handleRate\<close> at time \<open>now\<close>. The result is the new component state and the argument
  of the \<open>onUpdateWord\<close> call, if one is made.
\<close>

definition handleRate ::
  "int \<Rightarrow> rating \<Rightarrow> 'a StudySession \<Rightarrow> 'a StudySession \<times> 'a WordData_scheme option" where
  "handleRate now r s =
     (case currentWord s of
        None \<Rightarrow> (s, None)
      | Some cw \<Rightarrow>
          (let newLevel = rate_level r (level_or_0 cw);
               days = js_index SRS_INTERVALS newLevel;
               updated = cw\<lparr>srs_level := Some newLevel,
                            next_review := Some (nextReviewDate now days)\<rparr>;
               stats = (rate_stats r (sessionStats s))\<lparr>reviewed :=
                          reviewed (rate_stats r (sessionStats s)) + 1\<rparr>;
               s1 = s\<lparr>sessionStats := stats\<rparr>
           in (if int (currentIndex s) < int (length (queue s)) - 1
               then s1\<lparr>isFlipped := False, pendingAdvance := pendingAdvance s1 + 1\<rparr>
               else s1\<lparr>currentIndex := currentIndex s1 + 1\<rparr>,
               Some updated)))"

text \<open>The scheduled callback \<open>() => setCurrentIndex(prev => prev + 1)\<close>, when it runs.\<close>

definition advanceTimer :: "'a StudySession \<Rightarrow> 'a StudySession" where
  "advanceTimer s =
     (if pendingAdvance s = 0 then s
      else s\<lparr>currentIndex := currentIndex s + 1, pendingAdvance := pendingAdvance s - 1\<rparr>)"

text \<open>
  The caller's \<open>onUpdateWord\<close>:
  \<open>setSavedWords(prev => prev.map(old => old.word === w.word ? w : old))\<close>
\<close>

definition onUpdateWord ::
  "'a WordData_scheme \<Rightarrow> 'a WordData_scheme list \<Rightarrow> 'a WordData_scheme list" where
  "onUpdateWord w prev = map (\<lambda>old. if word old = word w then w else old) prev"


section \<open>Due items\<close>

text \<open>\<open>!x\<close> for an optional number: true for \<open>undefined\<close>, \<open>0\<close> and \<open>NaN\<close>.\<close>

definition js_not :: "jsnum option \<Rightarrow> bool" where
  "js_not x = (case x of None \<Rightarrow> True | Some NaN \<Rightarrow> True | Some (Num n) \<Rightarrow> n = 0)"

text \<open>\<open>x <= now\<close> for an optional number: false for \<open>undefined\<close> and \<open>NaN\<close>.\<close>

definition js_le :: "jsnum option \<Rightarrow> int \<Rightarrow> bool" where
  "js_le x now = (case x of None \<Rightarrow> False | Some NaN \<Rightarrow> False | Some (Num n) \<Rightarrow> n \<le> now)"

text \<open>The filter predicate of \<open>dueCount\<close>: \<open>!w.next_review || w.next_review <= now\<close>\<close>

definition isDue :: "int \<Rightarrow> 'a Reviewable_scheme \<Rightarrow> bool" where
  "isDue now w = (js_not (next_review w) \<or> js_le (next_review w) now)"

definition dueCount ::
  "'a WordData_scheme list \<Rightarrow> 'b SentenceData_scheme list \<Rightarrow> int \<Rightarrow> nat" where
  "dueCount savedWords savedSentences now =
     (let dWords = length (filter (isDue now) savedWords);
          dSentences = length (filter (isDue now) savedSentences)
      in dWords + dSentences)"


section \<open>Starting a session\<close>

text \<open>
  The caller's \<open>onStartStudy\<close>:
  \<open>setStudyQueue([...savedWords].sort(() => Math.random() - 0.5))\<close>;
  the result is the new \<open>studyQueue\<close>, which the caller passes to the session as
  \<open>words\<close>.
\<close>

definition onStartStudy ::
  "('a WordData_scheme list \<Rightarrow> 'a WordData_scheme list) \<Rightarrow> 'a WordData_scheme list
     \<Rightarrow> 'a WordData_scheme list" where
  "onStartStudy shuffle savedWords = shuffle savedWords"

text \<open>
  The component after mounting with \<open>words\<close>: the initial values of its state hooks, and
  the effect \<open>if (words.length > 0) setQueue(words)\<close>.
\<close>

definition StudySession_mount :: "'a WordData_scheme list \<Rightarrow> 'a StudySession" where
  "StudySession_mount ws =
     \<lparr>words = ws,
      queue = (if length ws > 0 then ws else []),
      currentIndex = 0,
      isFlipped = False,
      studyMode = None,
      sessionStats = \<lparr>reviewed = 0, forgotten = 0\<rparr>,
      userInput = [],
      quizOptions = [],
      isAnswered = False,
      isCorrectAnswer = None,
      pendingAdvance = 0\<rparr>"

text \<open>The mode buttons: \<open>setStudyMode(m)\<close>\<close>

definition setStudyMode :: "StudyMode \<Rightarrow> 'a StudySession \<Rightarrow> 'a StudySession" where
  "setStudyMode m s = s\<lparr>studyMode := Some m\<rparr>"


section \<open>Quiz and typing\<close>

text \<open>
  \<open>generateQuizOptions\<close>; \<open>shuffle1\<close> and \<open>shuffle2\<close> are the outcomes of its two
  random sorts. The property \<open>words\<close> is always an array, so the test \<open>!words\<close> is
  false.
\<close>

definition generateQuizOptions ::
  "('a WordData_scheme list \<Rightarrow> 'a WordData_scheme list) \<Rightarrow> (jsstring list \<Rightarrow> jsstring list)
     \<Rightarrow> 'a WordData_scheme list \<Rightarrow> jsstring \<Rightarrow> jsstring list" where
  "generateQuizOptions shuffle1 shuffle2 ws correctWord =
     (if length ws < 2 then [correctWord]
      else (let distractors =
                  map word (take 3 (shuffle1 (filter (\<lambda>w. word w \<noteq> correctWord) ws)))
            in shuffle2 (distractors @ [correctWord])))"

text \<open>
  \<open>handleCheckTyping\<close>. Reading \<open>currentWord.word\<close> when there is no current word
  throws; speaking the word aloud is left out.
\<close>

definition handleCheckTyping ::
  "(jsstring \<Rightarrow> jsstring) \<Rightarrow> 'a StudySession \<Rightarrow> js_error + 'a StudySession" where
  "handleCheckTyping unicode_lower s =
     (if trim (userInput s) = [] then Inr s
      else (case currentWord s of
              None \<Rightarrow> Inl TypeError
            | Some cw \<Rightarrow>
                (let correct = (toLowerCase unicode_lower (trim (userInput s))
                                  = toLowerCase unicode_lower (word cw))
                 in Inr (s\<lparr>isCorrectAnswer := Some correct, isAnswered := True\<rparr>))))"


section \<open>What the session shows\<close>

text \<open>
  The three screens of the component. The active screen shows the current word in the
  chosen mode; in typing mode it shows the answer line when \<open>isAnswered\<close> holds, and the
  four grading buttons react to clicks when \<open>isFlipped || isAnswered\<close>.
\<close>

datatype 'a view =
    ModeSelectView nat
  | CompleteView nat nat
  | ActiveView "'a WordData_scheme" "StudyMode option" bool bool

definition answerShown :: "'a StudySession \<Rightarrow> bool" where
  "answerShown s = isAnswered s"

definition gradingActionable :: "'a StudySession \<Rightarrow> bool" where
  "gradingActionable s = (isFlipped s \<or> isAnswered s)"

definition render :: "'a StudySession \<Rightarrow> js_error + 'a view" where
  "render s =
     (if studyMode s = None \<and> length (queue s) > 0 then Inr (ModeSelectView (length (queue s)))
      else if length (queue s) = 0 \<or> currentIndex s \<ge> length (queue s)
      then Inr (CompleteView (reviewed (sessionStats s)) (forgotten (sessionStats s)))
      else (case currentWord s of
              None \<Rightarrow> Inl TypeError
            | Some cw \<Rightarrow> Inr (ActiveView cw (studyMode s) (answerShown s) (gradingActionable s))))"


section \<open>The lookup cache\<close>











section \<open>Searching\<close>

datatype SearchMode = WordMode | SentenceMode

text \<open>
  The part of the \<open>App\<close> state that \<open>handleSearch\<close> reads and writes. Two additions
  serve the statements only: a stored result is paired with the \<open>cleanQuery\<close> of the
  \<open>handleSearch\<close> call that stored it, and \<open>inflight\<close> lists the calls that are
  waiting for their lookup.
\<close>

record ('w, 's) App =
  query :: jsstring
  searchMode :: SearchMode
  wordData :: "(jsstring \<times> 'w) option"
  sentenceData :: "(jsstring \<times> 's) option"
  loading :: bool
  error :: "jsstring option"
  latestQueryRef :: jsstring
  inflight :: "(jsstring \<times> SearchMode) list"

definition App_init :: "('w, 's) App" where
  "App_init =
     \<lparr>query = [], searchMode = WordMode, wordData = None, sentenceData = None,
      loading = False, error = None, latestQueryRef = [], inflight = []\<rparr>"

definition not_found_message :: jsstring where
  "not_found_message =
     [75, 104, 244, 110, 103, 32, 116, 236, 109, 32, 116, 104, 7845, 121, 32, 107, 7871, 116,
      32, 113, 117, 7843, 46]"

text \<open>\<open>handleSearch\<close> up to its \<open>await\<close>.\<close>

definition handleSearch_begin :: "('w, 's) App \<Rightarrow> ('w, 's) App" where
  "handleSearch_begin st =
     (let cleanQuery = trim (query st)
      in if cleanQuery = [] then st
         else st\<lparr>latestQueryRef := cleanQuery, loading := True, error := None,
                 inflight := inflight st @ [(cleanQuery, searchMode st)]\<rparr>)"

text \<open>The \<open>finally\<close> block of the call made for \<open>cleanQuery\<close>.\<close>

definition handleSearch_finally :: "jsstring \<Rightarrow> ('w, 's) App \<Rightarrow> ('w, 's) App" where
  "handleSearch_finally cleanQuery st =
     (if latestQueryRef st = cleanQuery then st\<lparr>loading := False\<rparr> else st)"

text \<open>The call made for \<open>cleanQuery\<close> in word mode, when \<open>lookupWord\<close> has resolved.\<close>

definition handleSearch_word :: "jsstring \<Rightarrow> 'w \<Rightarrow> ('w, 's) App \<Rightarrow> ('w, 's) App" where
  "handleSearch_word cleanQuery result st =
     handleSearch_finally cleanQuery
       (if latestQueryRef st = cleanQuery then st\<lparr>wordData := Some (cleanQuery, result)\<rparr>
        else st)"

text \<open>The same in sentence mode, when \<open>lookupSentence\<close> has resolved.\<close>

definition handleSearch_sentence :: "jsstring \<Rightarrow> 's \<Rightarrow> ('w, 's) App \<Rightarrow> ('w, 's) App" where
  "handleSearch_sentence cleanQuery result st =
     handleSearch_finally cleanQuery
       (if latestQueryRef st = cleanQuery then st\<lparr>sentenceData := Some (cleanQuery, result)\<rparr>
        else st)"

text \<open>
  The \<open>catch\<close> block, when the lookup has failed. The message is given by its code
  units.
\<close>

definition handleSearch_catch :: "jsstring \<Rightarrow> ('w, 's) App \<Rightarrow> ('w, 's) App" where
  "handleSearch_catch cleanQuery st =
     handleSearch_finally cleanQuery
       (if latestQueryRef st = cleanQuery then st\<lparr>error := Some not_found_message\<rparr>
        else st)"

text \<open>
  What can happen to the search state: the user edits the query, switches the mode or
  submits; a waiting call gets its result or its failure. An arrival for a call that is
  not waiting does not happen, and leaves the state as it is.
\<close>

datatype ('w, 's) event =
    SetQuery jsstring
  | SetSearchMode SearchMode
  | Submit
  | WordResolved jsstring 'w
  | SentenceResolved jsstring 's
  | Rejected jsstring SearchMode

definition step :: "('w, 's) event \<Rightarrow> ('w, 's) App \<Rightarrow> ('w, 's) App" where
  "step ev st =
     (case ev of
        SetQuery q \<Rightarrow> st\<lparr>query := q\<rparr>
      | SetSearchMode m \<Rightarrow> st\<lparr>searchMode := m\<rparr>
      | Submit \<Rightarrow> handleSearch_begin st
      | WordResolved q r \<Rightarrow>
          (if (q, WordMode) \<in> set (inflight st)
           then handleSearch_word q r (st\<lparr>inflight := remove1 (q, WordMode) (inflight st)\<rparr>)
           else st)
      | SentenceResolved q r \<Rightarrow>
          (if (q, SentenceMode) \<in> set (inflight st)
           then handleSearch_sentence q r
                  (st\<lparr>inflight := remove1 (q, SentenceMode) (inflight st)\<rparr>)
           else st)
      | Rejected q m \<Rightarrow>
          (if (q, m) \<in> set (inflight st)
           then handleSearch_catch q (st\<lparr>inflight := remove1 (q, m) (inflight st)\<rparr>)
           else st))"

fun run :: "('w, 's) event list \<Rightarrow> ('w, 's) App \<Rightarrow> ('w, 's) App" where
  "run [] st = st"
| "run (ev # evs) st = run evs (step ev st)"

text \<open>The result area of the search page.\<close>

datatype ('w, 's) screen =
    LoadingSkeleton
  | ErrorBox jsstring
  | WordCard jsstring 'w
  | SentenceCard jsstring 's
  | NoCard

definition result_area :: "('w, 's) App \<Rightarrow> ('w, 's) screen" where
  "result_area st =
     (if loading st then LoadingSkeleton
      else (case error st of
              Some e \<Rightarrow> ErrorBox e
            | None \<Rightarrow>
                (case (searchMode st, wordData st, sentenceData st) of
                   (WordMode, Some (q, r), _) \<Rightarrow> WordCard q r
                 | (SentenceMode, _, Some (q, r)) \<Rightarrow> SentenceCard q r
                 | _ \<Rightarrow> NoCard)))"

text \<open>The query whose result is on the screen, if a result is.\<close>

definition displayed_query :: "('w, 's) App \<Rightarrow> jsstring option" where
  "displayed_query st =
     (case result_area st of
        WordCard q r \<Rightarrow> Some q
      | SentenceCard q r \<Rightarrow> Some q
      | _ \<Rightarrow> None)"


section \<open>Observations and sample data\<close>

text \<open>The \<open>srs_level\<close> and \<open>next_review\<close> of the item that \<open>handleRate\<close> writes back.\<close>

definition updated_level :: "int \<Rightarrow> rating \<Rightarrow> 'a StudySession \<Rightarrow> int option" where
  "updated_level now r s =
     (case snd (handleRate now r s) of None \<Rightarrow> None | Some w \<Rightarrow> srs_level w)"

definition updated_next_review :: "int \<Rightarrow> rating \<Rightarrow> 'a StudySession \<Rightarrow> jsnum option" where
  "updated_next_review now r s =
     (case snd (handleRate now r s) of None \<Rightarrow> None | Some w \<Rightarrow> next_review w)"

text \<open>
  A saved word at level 5, a saved sentence without scheduling fields, and a flashcard
  session over a deck that holds only the word.
\<close>

definition example_word :: WordData where
  "example_word =
     \<lparr>srs_level = Some 5, next_review = Some (Num 1000), word = js ''apple'',
      meaning_vi = js ''tao'', part_of_speech = js ''noun'',
      example_en = js ''An apple a day.'', mnemonic = js ''a pill''\<rparr>"

definition example_sentence :: SentenceData where
  "example_sentence = \<lparr>srs_level = None, next_review = None, sentence = js ''Hi there''\<rparr>"

definition example_session :: "unit StudySession" where
  "example_session = setStudyMode Flashcard (StudySession_mount [example_word])"

text \<open>A deck of four words with different texts.\<close>

definition example_deck :: "WordData list" where
  "example_deck =
     map (\<lambda>t. example_word\<lparr>word := js t\<rparr>) [''apple'', ''pear'', ''plum'', ''fig'']"

text \<open>The correctness flag after \<open>handleCheckTyping\<close>, if the handler returns.\<close>

definition typing_flag :: "(jsstring \<Rightarrow> jsstring) \<Rightarrow> 'a StudySession \<Rightarrow> bool option" where
  "typing_flag unicode_lower s =
     (case handleCheckTyping unicode_lower s of
        Inl e \<Rightarrow> None
      | Inr s' \<Rightarrow> isCorrectAnswer s')"

text \<open>A typing session on one word with the given text, with the given input typed.\<close>

definition typing_session :: "jsstring \<Rightarrow> jsstring \<Rightarrow> unit StudySession" where
  "typing_session canonical input =
     (setStudyMode Typing (StudySession_mount [example_word\<lparr>word := canonical\<rparr>]))
       \<lparr>userInput := input\<rparr>"

text \<open>
  The lower-casing of a text whose code units are all below 0x100 (Latin-1), as the Unicode
  tables give it: \<open>A\<close>..\<open>Z\<close> and U+00C0..U+00DE without the multiplication sign
  U+00D7 move up by 0x20. It stands for \<open>unicode_lower\<close> in the samples.
\<close>

definition latin1_lower :: "jsstring \<Rightarrow> jsstring" where
  "latin1_lower s =
     map (\<lambda>c. if (0x41 \<le> c \<and> c \<le> 0x5A) \<or> (0xC0 \<le> c \<and> c \<le> 0xDE \<and> c \<noteq> 0xD7)
              then c + 0x20 else c) s"





text \<open>
  The stored result of a mode, by the query it answers; the histories in which every query
  is submitted in mode \<open>m\<close> (a submit with a blank query submits nothing, and the mode
  may be switched at any time); and the invariant of such histories: every waiting call was
  made in mode \<open>m\<close>, the other mode has no stored result, and outside the loading and
  error states the stored result of mode \<open>m\<close> answers the latest query.
\<close>

definition stored_query :: "SearchMode \<Rightarrow> ('w, 's) App \<Rightarrow> jsstring option" where
  "stored_query m st =
     (case m of
        WordMode \<Rightarrow> map_option fst (wordData st)
      | SentenceMode \<Rightarrow> map_option fst (sentenceData st))"

fun submits_in :: "SearchMode \<Rightarrow> ('w, 's) event list \<Rightarrow> ('w, 's) App \<Rightarrow> bool" where
  "submits_in m [] st = True"
| "submits_in m (ev # evs) st =
     ((case ev of Submit \<Rightarrow> trim (query st) = [] \<or> searchMode st = m | _ \<Rightarrow> True)
      \<and> submits_in m evs (step ev st))"

definition other_mode :: "SearchMode \<Rightarrow> SearchMode" where
  "other_mode m = (case m of WordMode \<Rightarrow> SentenceMode | SentenceMode \<Rightarrow> WordMode)"

definition one_mode_inv :: "SearchMode \<Rightarrow> ('w, 's) App \<Rightarrow> bool" where
  "one_mode_inv m st =
     (list_all (\<lambda>p. snd p = m) (inflight st)
      \<and> stored_query (other_mode m) st = None
      \<and> (loading st \<or> error st \<noteq> None \<or> stored_query m st = None
           \<or> stored_query m st = Some (latestQueryRef st)))"

text \<open>
  Two search histories. In the first, \<open>alpha\<close> and then \<open>beta\<close> are submitted in
  word mode, the lookup of \<open>beta\<close> returns before that of \<open>alpha\<close>, and the mode is
  switched to and fro. In the second, a sentence is analysed; then \<open>cat\<close> is
  submitted in word mode and, before that lookup returns, again in sentence mode; then the
  word lookup returns.
\<close>

definition ab_trace :: "(string, string) event list" where
  "ab_trace =
     [SetQuery (js ''alpha''), Submit, SetQuery (js ''beta''), Submit,
      WordResolved (js ''beta'') ''entry for beta'', SetSearchMode SentenceMode,
      WordResolved (js ''alpha'') ''entry for alpha'', SetSearchMode WordMode]"

definition race_trace :: "(string, string) event list" where
  "race_trace =
     [SetSearchMode SentenceMode, SetQuery (js ''hi there''), Submit,
      SentenceResolved (js ''hi there'') ''analysis of hi there'',
      SetSearchMode WordMode, SetQuery (js ''cat''), Submit,
      SetSearchMode SentenceMode, Submit,
      WordResolved (js ''cat'') ''entry for cat'']"


text \<open>
  A third history, with no two lookups at the same time: \<open>alpha\<close> is looked up as a
  word, \<open>beta\<close> is analysed as a sentence, and the mode is switched back to words.
\<close>

definition switch_trace :: "(string, string) event list" where
  "switch_trace =
     [SetQuery (js ''alpha''), Submit, WordResolved (js ''alpha'') ''entry for alpha'',
      SetSearchMode SentenceMode, SetQuery (js ''beta''), Submit,
      SentenceResolved (js ''beta'') ''analysis of beta'', SetSearchMode WordMode]"


section \<open>Properties of the scheduler\<close>

lemma SRS_INTERVALS_length: "length SRS_INTERVALS = 7"
  by (simp add: SRS_INTERVALS_def)

lemma rate_level_range:
  assumes "0 \<le> l" and "l \<le> 6"
  shows "0 \<le> rate_level r l \<and> rate_level r l \<le> 6"
  using assms by (cases r) (simp_all add: rate_level_def SRS_INTERVALS_length)

lemma handleRate_Some:
  assumes "currentWord s = Some cw"
  shows "snd (handleRate now r s) =
           Some (cw\<lparr>srs_level := Some (rate_level r (level_or_0 cw)),
                     next_review := Some (nextReviewDate now
                        (js_index SRS_INTERVALS (rate_level r (level_or_0 cw))))\<rparr>)"
  using assms by (simp add: handleRate_def Let_def)

lemma handleRate_stats:
  assumes "currentWord s = Some cw"
  shows "sessionStats (fst (handleRate now r s)) =
           (rate_stats r (sessionStats s))\<lparr>reviewed := reviewed (rate_stats r (sessionStats s)) + 1\<rparr>"
  using assms by (simp add: handleRate_def Let_def)

lemma example_current: "currentWord example_session = Some example_word"
  by (simp add: example_session_def setStudyMode_def StudySession_mount_def currentWord_def
      js_index_def)

lemma updated_level_eq:
  assumes "currentWord s = Some cw"
  shows "updated_level now r s = Some (rate_level r (level_or_0 cw))"
  by (simp add: updated_level_def handleRate_Some [OF assms])

lemma updated_next_review_eq:
  assumes "currentWord s = Some cw"
  shows "updated_next_review now r s =
           Some (nextReviewDate now (js_index SRS_INTERVALS (rate_level r (level_or_0 cw))))"
  by (simp add: updated_next_review_def handleRate_Some [OF assms])

lemma SRS_INTERVALS_increasing: "sorted_wrt (<) SRS_INTERVALS"
  by (simp add: SRS_INTERVALS_def)

text \<open>
  C1. For the current item, with \<open>L\<close> its level (the stored \<open>srs_level\<close>, or 0 when
  that field is absent), the level written back is 0 after \<open>fail\<close>, which also adds
  exactly 1 to the session's forgotten count; \<open>max 0 L\<close> after \<open>hard\<close>, which is \<open>L\<close>
  itself for a level that is not negative; \<open>min (L + 1) lastIndex\<close> after \<open>good\<close>;
  \<open>min (L + 2) lastIndex\<close> after \<open>easy\<close>, where \<open>lastIndex = 6\<close> is the last index of
  the interval table. No other grade changes the forgotten count.
\<close>

theorem handleRate_new_level:
  assumes cw: "currentWord s = Some cw"
    and L: "L = level_or_0 cw"
    and li: "lastIndex = int (length SRS_INTERVALS) - 1"
  shows "updated_level now Fail s = Some 0
       \<and> forgotten (sessionStats (fst (handleRate now Fail s))) = forgotten (sessionStats s) + 1
       \<and> updated_level now Hard s = Some (max 0 L)
       \<and> (0 \<le> L \<longrightarrow> updated_level now Hard s = Some L)
       \<and> updated_level now Good s = Some (min (L + 1) lastIndex)
       \<and> updated_level now Easy s = Some (min (L + 2) lastIndex)
       \<and> lastIndex = 6
       \<and> (srs_level cw = None \<longrightarrow> L = 0)
       \<and> (\<forall>l. srs_level cw = Some l \<longrightarrow> L = l)
       \<and> (\<forall>r. r \<noteq> Fail \<longrightarrow>
             forgotten (sessionStats (fst (handleRate now r s))) = forgotten (sessionStats s))"
proof -
  have lev: "updated_level now r s = Some (rate_level r L)" for r
    using updated_level_eq [OF cw] L by simp
  have st: "forgotten (sessionStats (fst (handleRate now r s))) =
              forgotten (rate_stats r (sessionStats s))" for r
    by (simp add: handleRate_stats [OF cw])
  have "lastIndex = 6"
    using li by (simp add: SRS_INTERVALS_length)
  moreover have "srs_level cw = None \<longrightarrow> L = 0"
    using L by (simp add: level_or_0_def)
  moreover have "\<forall>l. srs_level cw = Some l \<longrightarrow> L = l"
    using L by (simp add: level_or_0_def)
  moreover have "\<forall>r. r \<noteq> Fail \<longrightarrow>
      forgotten (sessionStats (fst (handleRate now r s))) = forgotten (sessionStats s)"
  proof (intro allI impI)
    fix r :: rating
    assume "r \<noteq> Fail"
    then show "forgotten (sessionStats (fst (handleRate now r s))) = forgotten (sessionStats s)"
      unfolding st by (cases r) (simp_all add: rate_stats_def)
  qed
  moreover have "forgotten (sessionStats (fst (handleRate now Fail s))) =
      forgotten (sessionStats s) + 1"
    unfolding st by (simp add: rate_stats_def)
  ultimately show ?thesis
    using li by (simp add: lev rate_level_def)
qed

text \<open>
  The witness grades the sample word at its stored level 5, the same word stored at level
  2, and the same word without a stored level.
\<close>

theorem handleRate_new_level_witness:
  "currentWord example_session = Some example_word
   \<and> srs_level example_word = Some 5
   \<and> updated_level 1000 Fail example_session = Some 0
   \<and> forgotten (sessionStats (fst (handleRate 1000 Fail example_session))) = 1
   \<and> updated_level 1000 Hard example_session = Some 5
   \<and> updated_level 1000 Good example_session = Some 6
   \<and> updated_level 1000 Easy example_session = Some 6
   \<and> forgotten (sessionStats (fst (handleRate 1000 Good example_session))) = 0
   \<and> srs_level (example_word\<lparr>srs_level := Some 2\<rparr>) = Some 2
   \<and> updated_level 1000 Hard (StudySession_mount [example_word\<lparr>srs_level := Some 2\<rparr>]) = Some 2
   \<and> updated_level 1000 Good (StudySession_mount [example_word\<lparr>srs_level := Some 2\<rparr>]) = Some 3
   \<and> updated_level 1000 Easy (StudySession_mount [example_word\<lparr>srs_level := Some 2\<rparr>]) = Some 4
   \<and> updated_level 1000 Hard (StudySession_mount [example_word\<lparr>srs_level := None\<rparr>]) = Some 0
   \<and> updated_level 1000 Good (StudySession_mount [example_word\<lparr>srs_level := None\<rparr>]) = Some 1
   \<and> updated_level 1000 Easy (StudySession_mount [example_word\<lparr>srs_level := None\<rparr>]) = Some 2"
proof -
  let ?w2 = "example_word\<lparr>srs_level := Some 2\<rparr>"
  let ?w0 = "example_word\<lparr>srs_level := None\<rparr>"
  have l5: "srs_level example_word = Some 5"
    by (simp add: example_word_def)
  have li: "(6::int) = int (length SRS_INTERVALS) - 1"
    by (simp add: SRS_INTERVALS_length)
  have f0: "forgotten (sessionStats example_session) = 0"
    by (simp add: example_session_def setStudyMode_def StudySession_mount_def)
  have c2: "currentWord (StudySession_mount [?w2]) = Some ?w2"
    and c0: "currentWord (StudySession_mount [?w0]) = Some ?w0"
    by (simp_all add: StudySession_mount_def currentWord_def js_index_def)
  have a5: "level_or_0 example_word = 5"
    using handleRate_new_level [OF example_current refl li] l5 by blast
  have a2: "level_or_0 ?w2 = 2"
    using handleRate_new_level [OF c2 refl li] by simp
  have a0: "level_or_0 ?w0 = 0"
    using handleRate_new_level [OF c0 refl li] by simp
  show ?thesis
    using handleRate_new_level [OF example_current refl li, of 1000]
      handleRate_new_level [OF c2 refl li, of 1000]
      handleRate_new_level [OF c0 refl li, of 1000]
      example_current l5 f0 a5 a2 a0
    by simp
qed

lemma next_review_any_level:
  assumes cw: "currentWord s = Some cw"
  shows "\<exists>newLevel. updated_level now r s = Some newLevel
           \<and> updated_next_review now r s =
               Some (case js_index SRS_INTERVALS newLevel of
                       None \<Rightarrow> NaN
                     | Some days \<Rightarrow> Num (now + days * 86400000))"
  by (simp add: updated_level_eq [OF cw] updated_next_review_eq [OF cw] nextReviewDate_def
      split: option.splits)

lemma next_review_valid_level:
  assumes cw: "currentWord s = Some cw"
    and lo: "0 \<le> level_or_0 cw"
    and hi: "level_or_0 cw \<le> int (length SRS_INTERVALS) - 1"
  shows "\<exists>newLevel. updated_level now r s = Some newLevel
           \<and> 0 \<le> newLevel \<and> newLevel < int (length SRS_INTERVALS)
           \<and> updated_next_review now r s =
               Some (Num (now + SRS_INTERVALS ! nat newLevel * 86400000))"
proof -
  let ?n = "rate_level r (level_or_0 cw)"
  have rng: "0 \<le> ?n \<and> ?n \<le> 6"
    using lo hi by (intro rate_level_range) (simp_all add: SRS_INTERVALS_length)
  then have idx: "js_index SRS_INTERVALS ?n = Some (SRS_INTERVALS ! nat ?n)"
    by (simp add: js_index_def SRS_INTERVALS_length)
  have "updated_next_review now r s = Some (Num (now + SRS_INTERVALS ! nat ?n * 86400000))"
    by (simp add: updated_next_review_eq [OF cw] idx nextReviewDate_def)
  with rng updated_level_eq [OF cw, of now r] show ?thesis
    by (simp add: SRS_INTERVALS_length)
qed

text \<open>A level that is an index of the table stays one: the data model's invariant.\<close>

lemma level_invariant:
  assumes cw: "currentWord s = Some cw"
    and lo: "0 \<le> level_or_0 cw"
    and hi: "level_or_0 cw \<le> int (length SRS_INTERVALS) - 1"
    and w': "snd (handleRate now r s) = Some w'"
  shows "0 \<le> level_or_0 w' \<and> level_or_0 w' \<le> int (length SRS_INTERVALS) - 1"
proof -
  have "srs_level w' = Some (rate_level r (level_or_0 cw))"
    using w' handleRate_Some [OF cw, of now r] by auto
  then show ?thesis
    using rate_level_range [of "level_or_0 cw" r] lo hi
    by (simp add: level_or_0_def SRS_INTERVALS_length)
qed

text \<open>
  C2. For every grade and every grading time \<open>now\<close>, the \<open>next_review\<close> written back
  is \<open>now + SRS_INTERVALS[newLevel] * 86400000\<close> for the level \<open>newLevel\<close> written
  back, in integers. When the current item's level is an index of the interval table (as
  the data model requires), \<open>newLevel\<close> is again such an index, so the table entry exists
  and the sum is a number; a table entry that does not exist makes the sum \<open>NaN\<close>. The
  table is \<open>[1, 3, 7, 14, 30, 90, 180]\<close>, strictly increasing.
\<close>

theorem handleRate_next_review:
  assumes cw: "currentWord s = Some cw"
  shows "(\<exists>newLevel. updated_level now r s = Some newLevel
            \<and> updated_next_review now r s =
                Some (case js_index SRS_INTERVALS newLevel of
                        None \<Rightarrow> NaN
                      | Some days \<Rightarrow> Num (now + days * 86400000)))
       \<and> (0 \<le> level_or_0 cw \<and> level_or_0 cw \<le> int (length SRS_INTERVALS) - 1 \<longrightarrow>
            (\<exists>newLevel. updated_level now r s = Some newLevel
               \<and> 0 \<le> newLevel \<and> newLevel < int (length SRS_INTERVALS)
               \<and> updated_next_review now r s =
                   Some (Num (now + SRS_INTERVALS ! nat newLevel * 86400000))))
       \<and> SRS_INTERVALS = [1, 3, 7, 14, 30, 90, 180]
       \<and> sorted_wrt (<) SRS_INTERVALS"
  using next_review_any_level [OF cw, of now r] next_review_valid_level [OF cw, of now r]
    SRS_INTERVALS_increasing
  by (simp add: SRS_INTERVALS_def)

theorem handleRate_next_review_witness:
  "currentWord example_session = Some example_word
   \<and> 0 \<le> level_or_0 example_word
   \<and> level_or_0 example_word \<le> int (length SRS_INTERVALS) - 1
   \<and> updated_level 1000 Hard example_session = Some 5
   \<and> updated_next_review 1000 Hard example_session = Some (Num (1000 + 90 * 86400000))"
proof -
  have L: "level_or_0 example_word = 5"
    by (simp add: level_or_0_def example_word_def)
  have lo: "0 \<le> level_or_0 example_word"
    and hi: "level_or_0 example_word \<le> int (length SRS_INTERVALS) - 1"
    by (simp_all add: L SRS_INTERVALS_length)
  have lev: "updated_level 1000 Hard example_session = Some 5"
    by (simp add: updated_level_eq [OF example_current] L rate_level_def)
  have nth: "SRS_INTERVALS ! 5 = 90"
    by (simp add: SRS_INTERVALS_def)
  from handleRate_next_review [OF example_current, of 1000 Hard] lo hi lev nth
  have "updated_next_review 1000 Hard example_session = Some (Num (1000 + 90 * 86400000))"
    by auto
  with example_current lo hi lev show ?thesis by simp
qed

text \<open>
  C10. For every grade, the item written back is the current item with \<open>srs_level\<close> and
  \<open>next_review\<close> overwritten: the word text, every content field the sources read and
  every further field (the extension part) are those of the current item.
\<close>

theorem handleRate_frame:
  assumes cw: "currentWord s = Some cw"
  shows "\<exists>w'. snd (handleRate now r s) = Some w'
           \<and> w' = cw\<lparr>srs_level := srs_level w', next_review := next_review w'\<rparr>
           \<and> word w' = word cw \<and> meaning_vi w' = meaning_vi cw
           \<and> part_of_speech w' = part_of_speech cw \<and> example_en w' = example_en cw
           \<and> mnemonic w' = mnemonic cw \<and> WordData.more w' = WordData.more cw"
  by (simp add: handleRate_Some [OF cw])

theorem handleRate_frame_witness:
  "currentWord example_session = Some example_word
   \<and> snd (handleRate 1000 Easy example_session) =
       Some (example_word\<lparr>srs_level := Some 6,
                          next_review := Some (Num (1000 + 180 * 86400000))\<rparr>)"
proof -
  from handleRate_frame [OF example_current, of 1000 Easy]
  obtain w' where w': "snd (handleRate 1000 Easy example_session) = Some w'"
    and fr: "w' = example_word\<lparr>srs_level := srs_level w', next_review := next_review w'\<rparr>"
    by blast
  have "updated_level 1000 Easy example_session = Some 6"
    by (simp add: updated_level_eq [OF example_current] level_or_0_def example_word_def
        rate_level_def SRS_INTERVALS_length)
  then have l: "srs_level w' = Some 6"
    using w' by (simp add: updated_level_def)
  have "updated_next_review 1000 Easy example_session = Some (Num (1000 + 180 * 86400000))"
    by (simp add: updated_next_review_eq [OF example_current] level_or_0_def example_word_def
        rate_level_def js_index_def nextReviewDate_def SRS_INTERVALS_def)
  then have n: "next_review w' = Some (Num (1000 + 180 * 86400000))"
    using w' by (simp add: updated_next_review_def)
  show ?thesis
    using example_current w' fr l n by simp
qed


section \<open>Properties of the due filter\<close>

lemma isDue_iff:
  "isDue now w \<longleftrightarrow>
     (case next_review w of
        None \<Rightarrow> True | Some NaN \<Rightarrow> True | Some (Num t) \<Rightarrow> t = 0 \<or> t \<le> now)"
  by (simp add: isDue_def js_not_def js_le_def split: option.splits jsnum.splits)

text \<open>
  C3. At every instant \<open>now\<close> (milliseconds since the epoch, so not negative) and for every
  saved item, word or sentence, whose \<open>next_review\<close> is unset or a timestamp, the filter
  of \<open>dueCount\<close> counts the item if and only if \<open>next_review\<close> is unset or
  \<open>next_review \<le> now\<close>: an item without \<open>next_review\<close> is due, one with \<open>now - 1\<close>
  is due, one with \<open>now + 1\<close> is not. A saved word adds 1 to the count exactly when it is
  due, a saved sentence likewise, and nothing else is counted.
\<close>

theorem due_filter:
  fixes w :: "'a WordData_scheme" and sn :: "'b SentenceData_scheme"
  assumes now: "0 \<le> now"
    and num: "next_review w \<noteq> Some NaN" and num': "next_review sn \<noteq> Some NaN"
  shows "(isDue now w \<longleftrightarrow>
            (next_review w = None \<or> (\<exists>t. next_review w = Some (Num t) \<and> t \<le> now)))
       \<and> (isDue now sn \<longleftrightarrow>
            (next_review sn = None \<or> (\<exists>t. next_review sn = Some (Num t) \<and> t \<le> now)))
       \<and> isDue now (w\<lparr>next_review := None\<rparr>)
       \<and> isDue now (w\<lparr>next_review := Some (Num (now - 1))\<rparr>)
       \<and> \<not> isDue now (w\<lparr>next_review := Some (Num (now + 1))\<rparr>)
       \<and> isDue now (sn\<lparr>next_review := None\<rparr>)
       \<and> isDue now (sn\<lparr>next_review := Some (Num (now - 1))\<rparr>)
       \<and> \<not> isDue now (sn\<lparr>next_review := Some (Num (now + 1))\<rparr>)
       \<and> dueCount (w # ws) ss now = (if isDue now w then 1 else 0) + dueCount ws ss now
       \<and> dueCount ws (sn # ss) now = (if isDue now sn then 1 else 0) + dueCount ws ss now
       \<and> dueCount ([] :: 'a WordData_scheme list) ([] :: 'b SentenceData_scheme list) now = 0"
proof -
  have iff: "isDue now x \<longleftrightarrow>
            (next_review x = None \<or> (\<exists>t. next_review x = Some (Num t) \<and> t \<le> now))"
    if "next_review x \<noteq> Some NaN" for x :: "'c Reviewable_scheme"
    using now that by (auto simp: isDue_iff split: option.splits jsnum.splits)
  have later: "\<not> isDue now (x\<lparr>next_review := Some (Num (now + 1))\<rparr>)"
    for x :: "'c Reviewable_scheme"
    using now by (simp add: isDue_iff)
  have "dueCount (w # ws) ss now = (if isDue now w then 1 else 0) + dueCount ws ss now"
    by (simp add: dueCount_def)
  moreover have "dueCount ws (sn # ss) now = (if isDue now sn then 1 else 0) + dueCount ws ss now"
    by (simp add: dueCount_def)
  moreover have
    "dueCount ([] :: 'a WordData_scheme list) ([] :: 'b SentenceData_scheme list) now = 0"
    by (simp add: dueCount_def)
  ultimately show ?thesis
    using iff [OF num] iff [OF num'] later [of w] later [of sn]
    by (simp add: isDue_iff)
qed

theorem due_filter_witness:
  "(0::int) \<le> 2000 \<and> next_review example_word \<noteq> Some NaN
   \<and> next_review example_sentence \<noteq> Some NaN
   \<and> isDue 2000 example_word
   \<and> isDue 2000 example_sentence
   \<and> isDue 2000 (example_word\<lparr>next_review := None\<rparr>)
   \<and> isDue 2000 (example_word\<lparr>next_review := Some (Num 1999)\<rparr>)
   \<and> \<not> isDue 2000 (example_word\<lparr>next_review := Some (Num 2001)\<rparr>)
   \<and> isDue 2000 (example_sentence\<lparr>next_review := Some (Num 1999)\<rparr>)
   \<and> \<not> isDue 2000 (example_sentence\<lparr>next_review := Some (Num 2001)\<rparr>)
   \<and> dueCount [example_word] ([] :: SentenceData list) 2000 = 1
   \<and> dueCount ([] :: WordData list) [example_sentence] 2000 = 1
   \<and> dueCount [example_word] [example_sentence] 2000 = 2
   \<and> \<not> isDue 999 example_word
   \<and> dueCount [example_word] [example_sentence] 999 = 1"
proof -
  have now: "(0::int) \<le> 2000" and now': "(0::int) \<le> 999"
    by simp_all
  have num: "next_review example_word \<noteq> Some NaN"
    and num': "next_review example_sentence \<noteq> Some NaN"
    by (simp_all add: example_word_def example_sentence_def)
  have nr: "next_review example_word = Some (Num 1000)"
    and nr': "next_review example_sentence = None"
    by (simp_all add: example_word_def example_sentence_def)
  show ?thesis
    using due_filter [OF now num num', of "[]" "[]"]
      due_filter [OF now num num', of "[]" "[example_sentence]"]
      due_filter [OF now' num num', of "[]" "[]"]
      due_filter [OF now' num num', of "[]" "[example_sentence]"]
      num num' nr nr'
    by simp
qed


section \<open>Properties of session start, quiz and typing\<close>

lemma is_shuffle_rev: "is_shuffle rev"
  by (simp add: is_shuffle_def)

lemma is_shuffle_length: "is_shuffle f \<Longrightarrow> length (f xs) = length xs"
  unfolding is_shuffle_def by (metis size_mset)

lemma is_shuffle_set: "is_shuffle f \<Longrightarrow> set (f xs) = set xs"
  unfolding is_shuffle_def by (metis set_mset_mset)

lemma is_shuffle_distinct_map:
  assumes "is_shuffle f" and "distinct (map g xs)"
  shows "distinct (map g (f xs))"
proof -
  have "mset (map g (f xs)) = mset (map g xs)"
    using assms(1) by (simp add: is_shuffle_def)
  then show ?thesis
    using assms(2) by (metis mset_eq_imp_distinct_iff)
qed

lemma distinct_filter_eq_le1: "distinct xs \<Longrightarrow> length (filter (\<lambda>x. x = c) xs) \<le> 1"
  by (induction xs) (auto simp: filter_empty_conv)

lemma others_length:
  assumes "distinct (map word ws)"
  shows "length ws \<le> length (filter (\<lambda>w. word w \<noteq> c) ws) + 1"
proof -
  have "length (filter (\<lambda>w. word w = c) ws) = length (filter (\<lambda>x. x = c) (map word ws))"
    by (simp add: filter_map comp_def)
  then have "length (filter (\<lambda>w. word w = c) ws) \<le> 1"
    using distinct_filter_eq_le1 [OF assms, of c] by simp
  moreover have "length (filter (\<lambda>w. word w = c) ws) + length (filter (\<lambda>w. \<not> word w = c) ws) = length ws"
    by (rule sum_length_filter_compl)
  ultimately show ?thesis by simp
qed

text \<open>
  C4. For a deck whose word texts are pairwise different and any correct word: if the deck
  has at least 4 items, the option list has 4 entries, holds the correct word exactly once
  and otherwise 3 different distractors, each the text of a deck item and none the correct
  word; if the deck has fewer than 2 items, the option list is \<open>[correctWord]\<close>. This
  holds whatever the two random sorts do.
\<close>

theorem quiz_options:
  assumes dist: "distinct (map word ws)"
    and sh1: "is_shuffle sh1" and sh2: "is_shuffle sh2"
  shows "(4 \<le> length ws \<longrightarrow>
            count_list (generateQuizOptions sh1 sh2 ws c) c = 1
          \<and> length (generateQuizOptions sh1 sh2 ws c) = 4
          \<and> (\<exists>ds. mset (generateQuizOptions sh1 sh2 ws c) = mset (ds @ [c])
                \<and> length ds = 3 \<and> distinct ds \<and> c \<notin> set ds
                \<and> set ds \<subseteq> word ` {w \<in> set ws. word w \<noteq> c}))
       \<and> (length ws < 2 \<longrightarrow> generateQuizOptions sh1 sh2 ws c = [c])"
proof (intro conjI impI)
  assume "length ws < 2"
  then show "generateQuizOptions sh1 sh2 ws c = [c]"
    by (simp add: generateQuizOptions_def)
next
  assume big: "4 \<le> length ws"
  define others where "others = filter (\<lambda>w. word w \<noteq> c) ws"
  define ds where "ds = map word (take 3 (sh1 others))"
  have opts: "generateQuizOptions sh1 sh2 ws c = sh2 (ds @ [c])"
    using big by (simp add: generateQuizOptions_def ds_def others_def)
  have m: "mset (generateQuizOptions sh1 sh2 ws c) = mset (ds @ [c])"
    using sh2 unfolding opts is_shuffle_def by blast
  have "3 \<le> length others"
    using others_length [OF dist, of c] big by (simp add: others_def)
  then have len: "length ds = 3"
    by (simp add: ds_def is_shuffle_length [OF sh1])
  have "distinct (map word others)"
    unfolding others_def using dist by (rule distinct_map_filter)
  then have "distinct (map word (sh1 others))"
    by (rule is_shuffle_distinct_map [OF sh1])
  then have dds: "distinct ds"
    unfolding ds_def take_map [symmetric] by (rule distinct_take)
  have "set (take 3 (sh1 others)) \<subseteq> set others"
    using set_take_subset [of 3 "sh1 others"] by (simp add: is_shuffle_set [OF sh1])
  then have sub: "set ds \<subseteq> word ` {w \<in> set ws. word w \<noteq> c}"
    by (auto simp: ds_def others_def)
  then have notin: "c \<notin> set ds"
    by auto
  show "count_list (generateQuizOptions sh1 sh2 ws c) c = 1"
  proof -
    have "count_list (generateQuizOptions sh1 sh2 ws c) c = count_list (ds @ [c]) c"
      using m by (metis count_mset)
    then show ?thesis
      using notin by (simp add: count_list_0_iff)
  qed
  show "length (generateQuizOptions sh1 sh2 ws c) = 4"
  proof -
    have "size (mset (generateQuizOptions sh1 sh2 ws c)) = size (mset (ds @ [c]))"
      by (simp only: m)
    then show ?thesis
      using len by simp
  qed
  show "\<exists>ds. mset (generateQuizOptions sh1 sh2 ws c) = mset (ds @ [c])
                \<and> length ds = 3 \<and> distinct ds \<and> c \<notin> set ds
                \<and> set ds \<subseteq> word ` {w \<in> set ws. word w \<noteq> c}"
    using m len dds notin sub by blast
qed

theorem quiz_options_witness:
  "distinct (map word example_deck) \<and> is_shuffle (rev :: WordData list \<Rightarrow> WordData list)
   \<and> is_shuffle (rev :: jsstring list \<Rightarrow> jsstring list) \<and> 4 \<le> length example_deck
   \<and> generateQuizOptions rev rev example_deck (js ''apple'')
       = [js ''apple'', js ''pear'', js ''plum'', js ''fig'']
   \<and> count_list (generateQuizOptions rev rev example_deck (js ''apple'')) (js ''apple'') = 1
   \<and> length (take 1 example_deck) < 2
   \<and> generateQuizOptions rev rev (take 1 example_deck) (js ''apple'') = [js ''apple'']"
proof -
  have d: "distinct (map word example_deck)"
    by (simp add: example_deck_def js_def)
  have d1: "distinct (map word (take 1 example_deck))"
    by (simp add: example_deck_def)
  have l: "4 \<le> length example_deck" and l1: "length (take 1 example_deck) < 2"
    by (simp_all add: example_deck_def)
  have v: "generateQuizOptions rev rev example_deck (js ''apple'')
      = [js ''apple'', js ''pear'', js ''plum'', js ''fig'']"
    by (simp add: generateQuizOptions_def example_deck_def js_def)
  show ?thesis
    using quiz_options [OF d is_shuffle_rev is_shuffle_rev, of "js ''apple''"]
      quiz_options [OF d1 is_shuffle_rev is_shuffle_rev, of "js ''apple''"]
      d l l1 v
    by (simp add: is_shuffle_rev)
qed

lemma queue_mount: "queue (StudySession_mount ws) = ws"
  by (simp add: StudySession_mount_def)
lemma words_mount: "words (StudySession_mount ws) = ws"
  by (simp add: StudySession_mount_def)

text \<open>
  C5, as claimed, fails: the caller's \<open>onStartStudy\<close> hands over all saved words, so
  a word whose \<open>next_review\<close> is 1000 is in the queue of a session that starts at time
  999, when it is not due.
\<close>

theorem session_queue_not_all_due:
  "example_word \<in> set (queue (StudySession_mount (onStartStudy rev [example_word])))
   \<and> \<not> isDue 999 example_word"
  by (simp add: queue_mount onStartStudy_def isDue_iff example_word_def)

text \<open>
  C5, amended. When a session starts, its queue is the item list the caller supplies, and
  the caller supplies all saved words in a random order: no filter for due items is
  applied, so the queue holds the same items as the saved deck.
\<close>

theorem session_queue_all_saved:
  assumes "is_shuffle shuffle"
  shows "queue (StudySession_mount ws) = ws
       \<and> words (StudySession_mount ws) = ws
       \<and> mset (queue (StudySession_mount (onStartStudy shuffle savedWords))) = mset savedWords"
  using assms by (simp add: queue_mount words_mount onStartStudy_def is_shuffle_def)

theorem session_queue_all_saved_witness:
  "is_shuffle (rev :: WordData list \<Rightarrow> WordData list)
   \<and> queue (StudySession_mount (onStartStudy rev [example_word, example_word\<lparr>word := js ''pear''\<rparr>]))
        = [example_word\<lparr>word := js ''pear''\<rparr>, example_word]"
proof -
  have "queue (StudySession_mount (onStartStudy rev [example_word, example_word\<lparr>word := js ''pear''\<rparr>]))
          = onStartStudy rev [example_word, example_word\<lparr>word := js ''pear''\<rparr>]"
    using session_queue_all_saved [OF is_shuffle_rev] by blast
  then show ?thesis
    by (simp add: is_shuffle_rev onStartStudy_def)
qed

lemma toLowerCase_ascii:
  assumes "list_all (\<lambda>c. c < 0x80) s"
  shows "toLowerCase unicode_lower s = map lower_ascii s"
  using assms by (simp add: toLowerCase_def)

text \<open>
  C6, as claimed, fails: the canonical text is not trimmed. For the stored word
  \<open>apple\<close> followed by a space and the input \<open>apple\<close>, the two trimmed and lower-cased
  texts are equal, but the flag is set to false. (Both texts are ASCII, so the Unicode
  tables play no part.)
\<close>

theorem typing_untrimmed_canonical:
  "trim (userInput (typing_session (js ''apple '') (js ''apple''))) \<noteq> []
   \<and> currentWord (typing_session (js ''apple '') (js ''apple''))
       = Some (example_word\<lparr>word := js ''apple ''\<rparr>)
   \<and> toLowerCase latin1_lower (trim (js ''apple''))
       = toLowerCase latin1_lower (trim (js ''apple ''))
   \<and> typing_flag latin1_lower (typing_session (js ''apple '') (js ''apple'')) = Some False"
  by (simp add: typing_session_def setStudyMode_def StudySession_mount_def currentWord_def
      js_index_def typing_flag_def handleCheckTyping_def trim_def toLowerCase_def is_space_def
      lower_ascii_def js_def)

text \<open>
  C6, amended. In a typing session, submitting an input that is not blank sets the
  correctness flag to true if and only if the input, trimmed and lower-cased, equals the
  item's word text lower-cased (the word text is not trimmed); it also sets the answered
  flag, which shows the answer line and makes the grading buttons react; nothing else of the
  session changes. Submitting a blank input changes nothing.
\<close>

theorem typing_check:
  assumes cw: "currentWord s = Some cw"
  shows "(trim (userInput s) \<noteq> [] \<longrightarrow>
            (\<exists>s'. handleCheckTyping unicode_lower s = Inr s'
               \<and> isCorrectAnswer s' =
                   Some (toLowerCase unicode_lower (trim (userInput s))
                           = toLowerCase unicode_lower (word cw))
               \<and> isAnswered s' \<and> answerShown s' \<and> gradingActionable s'
               \<and> s' = s\<lparr>isCorrectAnswer := isCorrectAnswer s', isAnswered := True\<rparr>))
       \<and> (trim (userInput s) = [] \<longrightarrow> handleCheckTyping unicode_lower s = Inr s)"
  using cw by (simp add: handleCheckTyping_def answerShown_def gradingActionable_def)

text \<open>
  The witness types \<open>aPPle\<close> between spaces, then \<open>apples\<close>, against the word
  \<open>Apple\<close>; then \<open>CAF\<close> and U+00C9 against \<open>caf\<close> and U+00E9, lower-cased by the
  Latin-1 tables; then two no-break spaces, which are a blank input.
\<close>

theorem typing_check_witness:
  "currentWord (typing_session (js ''Apple'') (js ''  aPPle '')) =
     Some (example_word\<lparr>word := js ''Apple''\<rparr>)
   \<and> trim (userInput (typing_session (js ''Apple'') (js ''  aPPle ''))) \<noteq> []
   \<and> typing_flag latin1_lower (typing_session (js ''Apple'') (js ''  aPPle '')) = Some True
   \<and> typing_flag latin1_lower (typing_session (js ''Apple'') (js ''apples'')) = Some False
   \<and> typing_flag latin1_lower
        (typing_session [0x63, 0x61, 0x66, 0xE9] [0x43, 0x41, 0x46, 0xC9]) = Some True
   \<and> trim (userInput (typing_session (js ''Apple'') [0xA0, 0xA0])) = []
   \<and> handleCheckTyping latin1_lower (typing_session (js ''Apple'') [0xA0, 0xA0])
       = Inr (typing_session (js ''Apple'') [0xA0, 0xA0])"
proof -
  let ?s = "typing_session (js ''Apple'') (js ''  aPPle '')"
  let ?t = "typing_session (js ''Apple'') (js ''apples'')"
  let ?u = "typing_session [0x63, 0x61, 0x66, 0xE9] [0x43, 0x41, 0x46, 0xC9]"
  let ?b = "typing_session (js ''Apple'') [0xA0, 0xA0]"
  have ui: "userInput (typing_session c i) = i" for c i
    by (simp add: typing_session_def setStudyMode_def StudySession_mount_def)
  have cw: "currentWord (typing_session c i) = Some (example_word\<lparr>word := c\<rparr>)" for c i
    by (simp add: typing_session_def setStudyMode_def StudySession_mount_def currentWord_def
        js_index_def)
  have ns: "trim (userInput ?s) \<noteq> []" and nt: "trim (userInput ?t) \<noteq> []"
    and nu: "trim (userInput ?u) \<noteq> []" and nb: "trim (userInput ?b) = []"
    by (simp_all add: ui trim_def is_space_def js_def)
  have es: "toLowerCase latin1_lower (trim (userInput ?s)) = toLowerCase latin1_lower (js ''Apple'')"
    and et: "toLowerCase latin1_lower (trim (userInput ?t)) \<noteq> toLowerCase latin1_lower (js ''Apple'')"
    and eu: "toLowerCase latin1_lower (trim (userInput ?u))
               = toLowerCase latin1_lower [0x63, 0x61, 0x66, 0xE9]"
    by (simp_all add: ui trim_def is_space_def js_def toLowerCase_def lower_ascii_def
        latin1_lower_def)
  from typing_check [OF cw, of "js ''Apple''" "js ''  aPPle ''" latin1_lower] ns es
  have "typing_flag latin1_lower ?s = Some True"
    by (auto simp: typing_flag_def)
  moreover from typing_check [OF cw, of "js ''Apple''" "js ''apples''" latin1_lower] nt et
  have "typing_flag latin1_lower ?t = Some False"
    by (auto simp: typing_flag_def)
  moreover from typing_check [OF cw, of "[0x63, 0x61, 0x66, 0xE9]" "[0x43, 0x41, 0x46, 0xC9]"
      latin1_lower] nu eu
  have "typing_flag latin1_lower ?u = Some True"
    by (auto simp: typing_flag_def)
  moreover from typing_check [OF cw, of "js ''Apple''" "[0xA0, 0xA0]" latin1_lower] nb
  have "handleCheckTyping latin1_lower ?b = Inr ?b"
    by simp
  ultimately show ?thesis
    using cw ns nb by simp
qed

lemma currentWord_None: "length (queue s) \<le> currentIndex s \<Longrightarrow> currentWord s = None"
  by (simp add: currentWord_def js_index_def)

lemma currentWord_Some:
  "currentIndex s < length (queue s) \<Longrightarrow> currentWord s = Some (queue s ! currentIndex s)"
  by (simp add: currentWord_def js_index_def)

lemma render_no_error: "render s \<noteq> Inl TypeError"
  by (cases "currentIndex s < length (queue s)") (simp_all add: render_def currentWord_Some)

lemma render_Active:
  assumes "render s = Inr (ActiveView cw m a g)"
  shows "currentIndex s < length (queue s) \<and> cw = queue s ! currentIndex s"
proof -
  from assms have "currentIndex s < length (queue s)"
    by (auto simp: render_def split: if_splits)
  with assms show ?thesis
    by (auto simp: render_def currentWord_Some split: if_splits)
qed

text \<open>
  C7. A session mounted on an empty list shows the Complete screen with reviewed = 0 and
  forgotten = 0 at once, and submitting in it does nothing. In every state, rendering never
  reads a field of a missing current word; when \<open>currentIndex\<close> is at or past the end of
  the queue there is no current word and \<open>handleRate\<close> returns without any effect; and
  the active screen is only shown for an index inside the queue.
\<close>

theorem empty_queue_complete:
  fixes s :: "'a StudySession"
  shows "render (StudySession_mount ([] :: 'a WordData_scheme list)) = Inr (CompleteView 0 0)
       \<and> handleCheckTyping unicode_lower (StudySession_mount ([] :: 'a WordData_scheme list))
           = Inr (StudySession_mount [])
       \<and> render s \<noteq> Inl TypeError
       \<and> (length (queue s) \<le> currentIndex s \<longrightarrow>
            currentWord s = None \<and> handleRate now r s = (s, None))
       \<and> (render s = Inr (ActiveView cw m a g) \<longrightarrow>
            currentIndex s < length (queue s) \<and> cw = queue s ! currentIndex s)"
proof -
  have "render (StudySession_mount ([] :: 'a WordData_scheme list)) = Inr (CompleteView 0 0)"
    by (simp add: render_def StudySession_mount_def)
  moreover have
    "handleCheckTyping unicode_lower (StudySession_mount ([] :: 'a WordData_scheme list))
      = Inr (StudySession_mount [])"
    by (simp add: handleCheckTyping_def StudySession_mount_def trim_def)
  moreover have "length (queue s) \<le> currentIndex s \<longrightarrow>
      currentWord s = None \<and> handleRate now r s = (s, None)"
    by (simp add: handleRate_def currentWord_None)
  moreover have "render s = Inr (ActiveView cw m a g) \<longrightarrow>
      currentIndex s < length (queue s) \<and> cw = queue s ! currentIndex s"
    using render_Active by blast
  ultimately show ?thesis
    using render_no_error by blast
qed

theorem empty_queue_complete_witness:
  "length (queue (StudySession_mount ([] :: WordData list)))
     \<le> currentIndex (StudySession_mount ([] :: WordData list))
   \<and> currentWord (StudySession_mount ([] :: WordData list)) = None
   \<and> handleRate 1000 Fail (StudySession_mount ([] :: WordData list))
       = (StudySession_mount [], None)
   \<and> render (StudySession_mount ([] :: WordData list)) = Inr (CompleteView 0 0)
   \<and> render example_session = Inr (ActiveView example_word (Some Flashcard) False False)
   \<and> currentIndex example_session < length (queue example_session)"
proof -
  have a: "length (queue (StudySession_mount ([] :: WordData list)))
     \<le> currentIndex (StudySession_mount ([] :: WordData list))"
    by (simp add: StudySession_mount_def)
  have b: "render example_session = Inr (ActiveView example_word (Some Flashcard) False False)"
    by (simp add: render_def example_current answerShown_def gradingActionable_def)
      (simp add: example_session_def setStudyMode_def StudySession_mount_def)
  show ?thesis
    using empty_queue_complete [of latin1_lower "StudySession_mount ([] :: WordData list)"
        1000 Fail]
      empty_queue_complete [of latin1_lower example_session _ _ example_word "Some Flashcard"
        False False] a b
    by blast
qed


section \<open>Properties of the lookup cache\<close>














section \<open>Properties of searching\<close>

text \<open>
  C9. The displayed result should never answer a query other than the latest submitted
  one, and the code's guard compares the text of a call's query with the latest text for
  that purpose. The guard misses the call that the same text, submitted again in the other
  mode, has superseded: in the history \<open>race_trace\<close> the sentence lookup of \<open>cat\<close> is
  still waiting and \<open>cat\<close> is the latest query, the word lookup of \<open>cat\<close> passes the
  guard and ends the loading state, and the screen shows the analysis of the earlier
  sentence \<open>hi there\<close>.
\<close>

theorem stale_result_displayed:
  "displayed_query (run race_trace App_init) = Some (js ''hi there'')
   \<and> latestQueryRef (run race_trace App_init) = js ''cat''
   \<and> inflight (run race_trace App_init) = [(js ''cat'', SentenceMode)]
   \<and> loading (run race_trace App_init) = False"
  by (simp add: race_trace_def App_init_def step_def handleSearch_begin_def Let_def
      handleSearch_sentence_def handleSearch_word_def handleSearch_finally_def
      displayed_query_def result_area_def trim_def is_space_def js_def)

text \<open>
  Each mode keeps its own stored result, so the same shows without any lookups at the same
  time: after \<open>switch_trace\<close> nothing is waiting, \<open>beta\<close> is the latest query and the
  screen shows the entry for \<open>alpha\<close>.
\<close>

lemma switched_mode_displayed:
  "displayed_query (run switch_trace App_init) = Some (js ''alpha'')
   \<and> latestQueryRef (run switch_trace App_init) = js ''beta''
   \<and> inflight (run switch_trace App_init) = []"
  by (simp add: switch_trace_def App_init_def step_def handleSearch_begin_def Let_def
      handleSearch_sentence_def handleSearch_word_def handleSearch_finally_def
      displayed_query_def result_area_def trim_def is_space_def js_def)

text \<open>
  What the guard does achieve. An arriving result is stored only if its query text equals
  the latest submitted text, and an arrival for another text changes nothing but the list
  of waiting calls.
\<close>

lemma word_commit_latest:
  "wordData (step (WordResolved q r) st) \<noteq> wordData st \<Longrightarrow> latestQueryRef st = q"
  by (auto simp: step_def handleSearch_word_def handleSearch_finally_def split: if_splits)

lemma sentence_commit_latest:
  "sentenceData (step (SentenceResolved q r) st) \<noteq> sentenceData st \<Longrightarrow> latestQueryRef st = q"
  by (auto simp: step_def handleSearch_sentence_def handleSearch_finally_def split: if_splits)

lemma stale_discarded:
  assumes "latestQueryRef st \<noteq> q"
  shows "step (WordResolved q r) st = st\<lparr>inflight := remove1 (q, WordMode) (inflight st)\<rparr>"
    and "step (SentenceResolved q r') st =
           st\<lparr>inflight := remove1 (q, SentenceMode) (inflight st)\<rparr>"
    and "step (Rejected q m) st = st\<lparr>inflight := remove1 (q, m) (inflight st)\<rparr>"
  using assms
  by (simp_all add: step_def handleSearch_word_def handleSearch_sentence_def
      handleSearch_catch_def handleSearch_finally_def remove1_idem)

text \<open>
  When every query of a history is submitted in one mode, a result on the screen answers
  the latest submitted query, whatever the order of arrivals and however often the mode is
  switched.
\<close>

lemma displayed_query_cases:
  "displayed_query st =
     (if loading st \<or> error st \<noteq> None then None else stored_query (searchMode st) st)"
  by (auto simp: displayed_query_def result_area_def stored_query_def
      split: option.splits SearchMode.splits prod.splits)

lemma one_mode_inv_init: "one_mode_inv m App_init"
  by (simp add: one_mode_inv_def App_init_def stored_query_def split: SearchMode.splits)

lemma list_all_remove1: "list_all P xs \<Longrightarrow> list_all P (remove1 x xs)"
  by (induction xs) auto

lemma one_mode_inv_step:
  assumes inv: "one_mode_inv m st"
    and sub: "case ev of Submit \<Rightarrow> trim (query st) = [] \<or> searchMode st = m | _ \<Rightarrow> True"
  shows "one_mode_inv m (step ev st)"
proof (cases ev)
  case (SetQuery q)
  with inv show ?thesis
    by (cases m) (simp_all add: step_def one_mode_inv_def stored_query_def other_mode_def)
next
  case (SetSearchMode m')
  with inv show ?thesis
    by (cases m) (simp_all add: step_def one_mode_inv_def stored_query_def other_mode_def)
next
  case Submit
  with inv sub show ?thesis
    by (cases m)
      (auto simp: step_def one_mode_inv_def handleSearch_begin_def Let_def stored_query_def
        other_mode_def)
next
  case (WordResolved q r)
  show ?thesis
  proof (cases "(q, WordMode) \<in> set (inflight st)")
    case False
    with inv WordResolved show ?thesis by (simp add: step_def)
  next
    case True
    with inv have "m = WordMode"
      by (auto simp: one_mode_inv_def list_all_iff)
    with inv WordResolved True show ?thesis
      by (auto simp: step_def one_mode_inv_def handleSearch_word_def handleSearch_finally_def
          stored_query_def other_mode_def list_all_remove1)
  qed
next
  case (SentenceResolved q r)
  show ?thesis
  proof (cases "(q, SentenceMode) \<in> set (inflight st)")
    case False
    with inv SentenceResolved show ?thesis by (simp add: step_def)
  next
    case True
    with inv have "m = SentenceMode"
      by (auto simp: one_mode_inv_def list_all_iff)
    with inv SentenceResolved True show ?thesis
      by (auto simp: step_def one_mode_inv_def handleSearch_sentence_def
          handleSearch_finally_def stored_query_def other_mode_def list_all_remove1)
  qed
next
  case (Rejected q m')
  show ?thesis
  proof (cases "(q, m') \<in> set (inflight st)")
    case False
    with inv Rejected show ?thesis by (simp add: step_def)
  next
    case True
    with inv Rejected show ?thesis
      by (cases m)
        (auto simp: step_def one_mode_inv_def handleSearch_catch_def handleSearch_finally_def
          stored_query_def other_mode_def list_all_remove1)
  qed
qed

lemma one_mode_inv_run:
  assumes "one_mode_inv m st" and "submits_in m evs st"
  shows "one_mode_inv m (run evs st)"
  using assms by (induction evs arbitrary: st) (simp_all add: one_mode_inv_step)

lemma one_mode_displayed:
  assumes "one_mode_inv m st" and "displayed_query st = Some q"
  shows "q = latestQueryRef st"
proof (cases "searchMode st = m")
  case True
  with assms show ?thesis
    by (auto simp: one_mode_inv_def displayed_query_cases split: if_splits)
next
  case False
  then have "searchMode st = other_mode m"
    by (cases m; cases "searchMode st") (simp_all add: other_mode_def)
  with assms show ?thesis
    by (auto simp: one_mode_inv_def displayed_query_cases split: if_splits)
qed

lemma latest_query_wins_in_one_mode:
  assumes "submits_in m evs App_init"
    and "displayed_query (run evs App_init) = Some q"
  shows "q = latestQueryRef (run evs App_init)"
  using one_mode_displayed [OF one_mode_inv_run [OF one_mode_inv_init assms(1)] assms(2)] .

text \<open>
  The history \<open>ab_trace\<close>: \<open>alpha\<close> and then \<open>beta\<close> are submitted in word mode; only
  the result for \<open>beta\<close> is ever shown, also when the result for \<open>alpha\<close> arrives last.
\<close>

lemma ab_trace_displayed:
  "submits_in WordMode ab_trace App_init
   \<and> map (\<lambda>n. displayed_query (run (take n ab_trace) App_init)) [0, 1, 2, 3, 4, 5, 6, 7, 8]
       = [None, None, None, None, None, Some (js ''beta''), None, None, Some (js ''beta'')]
   \<and> latestQueryRef (run ab_trace App_init) = js ''beta''"
  by (simp add: ab_trace_def App_init_def step_def handleSearch_begin_def Let_def
      handleSearch_word_def handleSearch_finally_def displayed_query_def result_area_def
      trim_def is_space_def js_def)


end
